theory Spec2Isabelle
  imports Main "HOL-Library.Word"
begin

section \<open>JavaScript strings\<close>

text \<open>
  A JavaScript string is a finite sequence of UTF-16 code units. The functions below are
  the \<^verbatim>\<open>String.prototype\<close> methods that \<^verbatim>\<open>src/src/Chapter05.jsx\<close> calls,
  written over lists of 16-bit words. \<open>js\<close> turns an ASCII literal of the source into
  such a list.
\<close>

type_synonym jschar = "16 word"
type_synonym jsstring = "jschar list"

definition js :: "string \<Rightarrow> jsstring" where
  "js s = map (\<lambda>c. of_nat (of_char c)) s"

definition LF :: jschar where
  "LF = 10"

text \<open>
  \<^verbatim>\<open>trim()\<close> removes WhiteSpace and LineTerminator code points (ECMAScript 12.2, 12.3):
  TAB, LF, VT, FF, CR, SP, NBSP, U+1680, U+2000..U+200A, LS, PS, U+202F, U+205F, U+3000
  and the byte order mark U+FEFF.
\<close>

definition is_ws :: "jschar \<Rightarrow> bool" where
  "is_ws c \<longleftrightarrow>
     c = 0x9 \<or> c = 0xA \<or> c = 0xB \<or> c = 0xC \<or> c = 0xD \<or> c = 0x20 \<or> c = 0xA0 \<or>
     c = 0x1680 \<or> (0x2000 \<le> c \<and> c \<le> 0x200A) \<or> c = 0x2028 \<or> c = 0x2029 \<or>
     c = 0x202F \<or> c = 0x205F \<or> c = 0x3000 \<or> c = 0xFEFF"

definition trim :: "jsstring \<Rightarrow> jsstring" where
  "trim s = rev (dropWhile is_ws (rev (dropWhile is_ws s)))"

fun startsWith :: "jsstring \<Rightarrow> jsstring \<Rightarrow> bool" where
  "startsWith s [] = True"
| "startsWith [] (p # ps) = False"
| "startsWith (c # cs) (p # ps) = (c = p \<and> startsWith cs ps)"

text \<open>
  \<^verbatim>\<open>s.replace(pat, rep)\<close> with a string pattern replaces the first occurrence of
  \<open>pat\<close> only. The source calls it with the replacement \<^verbatim>\<open>""\<close>, so the \<^verbatim>\<open>$\<close>
  patterns of a replacement string do not arise.
\<close>

fun replace :: "jsstring \<Rightarrow> jsstring \<Rightarrow> jsstring \<Rightarrow> jsstring" where
  "replace [] pat rep = (if pat = [] then rep else [])"
| "replace (c # cs) pat rep =
     (if startsWith (c # cs) pat then rep @ drop (length pat) (c # cs)
      else c # replace cs pat rep)"

text \<open>
  \<^verbatim>\<open>s.split(/\n/)\<close>: the pieces between the line feeds, in order. The result is never
  empty: the empty string splits into one empty piece, and a trailing line feed leaves
  an empty last piece.
\<close>

fun split_lines :: "jsstring \<Rightarrow> jsstring list" where
  "split_lines [] = [[]]"
| "split_lines (c # cs) =
     (if c = LF then [] # split_lines cs
      else (case split_lines cs of
              [] \<Rightarrow> [[c]]
            | l # ls \<Rightarrow> (c # l) # ls))"

section \<open>Parsing the captured output (\<^verbatim>\<open>usePyRunner.run\<close>, lines 197 to 212)\<close>

definition sentinel :: jsstring where
  "sentinel = js ''__IMG__''"

definition data_url_prefix :: jsstring where
  "data_url_prefix = js ''data:image/png;base64,''"

text \<open>
  The body of \<^verbatim>\<open>for (const line of lines)\<close>, with the two accumulators
  \<^verbatim>\<open>images\<close> and \<^verbatim>\<open>text\<close> passed along:
  \<^verbatim>\<open>
  if (line.startsWith("__IMG__")) {
    const b64 = line.replace("__IMG__", "");
    images.push(`data:image/png;base64,${b64}`);
  } else if (line.trim().length) {
    text += line + "\n";
  }
  \<close>
\<close>

fun parse_lines :: "jsstring list \<Rightarrow> jsstring list \<times> jsstring \<Rightarrow> jsstring list \<times> jsstring" where
  "parse_lines [] acc = acc"
| "parse_lines (line # rest) (images, text) =
     (if startsWith line sentinel then
        parse_lines rest (images @ [data_url_prefix @ replace line sentinel []], text)
      else if length (trim line) \<noteq> 0 then
        parse_lines rest (images, text @ line @ [LF])
      else parse_lines rest (images, text))"

text \<open>\<^verbatim>\<open>let images = []; let text = ""; const lines = String(out).split(/\n/); for ...\<close>\<close>

definition parse_output :: "jsstring \<Rightarrow> jsstring list \<times> jsstring" where
  "parse_output out = parse_lines (split_lines out) ([], [])"

section \<open>The instrumentation wrapped around the guest source\<close>

text \<open>The two template literals \<^verbatim>\<open>header\<close> and \<^verbatim>\<open>footer\<close> of \<^verbatim>\<open>run\<close>.\<close>

definition header :: jsstring where
  "header = js (concat
    [''\<newline>'',
     ''import sys, io, base64\<newline>'',
     ''import numpy as np\<newline>'',
     ''import pandas as pd\<newline>'',
     ''import matplotlib\<newline>'',
     ''matplotlib.use('Agg')\<newline>'',
     ''import matplotlib.pyplot as plt\<newline>'',
     ''\<newline>'',
     ''# ---- Seaborn (optional) with offline fallbacks ----\<newline>'',
     ''try:\<newline>'',
     ''    import seaborn as sns\<newline>'',
     ''    _orig_load = sns.load_dataset\<newline>'',
     ''    def _safe_load_dataset(name):\<newline>'',
     ''        try:\<newline>'',
     ''            return _orig_load(name)\<newline>'',
     ''        except Exception:\<newline>'',
     ''            # Offline/sandbox fallbacks\<newline>'',
     ''            if name == 'tips':\<newline>'',
     ''                return pd.DataFrame({\<newline>'',
     ''                    'total_bill':[16.99,10.34,21.01,23.68,24.59,25.29,8.77,26.88],\<newline>'',
     ''                    'tip':[1.01,1.66,3.50,3.31,3.61,4.71,2.00,3.12],\<newline>'',
     ''                    'sex':['Female','Male','Male','Male','Female','Male','Female','Male'],\<newline>'',
     ''                    'day':['Sun','Sun','Sun','Sun','Sun','Sun','Sat','Sat']\<newline>'',
     ''                })\<newline>'',
     ''            if name == 'titanic':\<newline>'',
     ''                return pd.DataFrame({\<newline>'',
     ''                    'survived':[0,1,1,0,1,0,1,0],\<newline>'',
     ''                    'pclass':[3,1,3,1,2,3,2,1],\<newline>'',
     ''                    'sex':['male','female','female','male','female','male','female','male'],\<newline>'',
     ''                    'age':[22,38,26,35,27,28,14,54],\<newline>'',
     ''                    'fare':[7.25,71.28,7.92,53.10,10.50,8.05,30.07,51.86],\<newline>'',
     ''                    'class':['Third','First','Third','First','Second','Third','Second','First']\<newline>'',
     ''                })\<newline>'',
     ''            raise\<newline>'',
     ''    sns.load_dataset = _safe_load_dataset\<newline>'',
     ''    # Preload commonly used datasets so subsequent blocks can reuse\<newline>'',
     ''    globals().setdefault('tips', sns.load_dataset('tips'))\<newline>'',
     ''    globals().setdefault('titanic', sns.load_dataset('titanic'))\<newline>'',
     ''except Exception:\<newline>'',
     ''    pass\<newline>'',
     ''\<newline>'',
     ''# ---- stdout capture ----\<newline>'',
     ''_stdout_buffer = io.StringIO()\<newline>'',
     ''_sys_stdout = sys.stdout\<newline>'',
     ''sys.stdout = _stdout_buffer\<newline>'',
     ''\<newline>'',
     ''# ---- Patch plt.show() to emit base64 PNGs ----\<newline>'',
     ''_def_show = plt.show\<newline>'',
     ''def _capture_show(*args, **kwargs):\<newline>'',
     ''    buf = io.BytesIO()\<newline>'',
     ''    plt.savefig(buf, format='png', bbox_inches='tight')\<newline>'',
     ''    buf.seek(0)\<newline>'',
     ''    b64 = base64.b64encode(buf.read()).decode('ascii')\<newline>'',
     ''    print('__IMG__' + b64)\<newline>'',
     ''    plt.close('all')\<newline>'',
     ''plt.show = _capture_show\<newline>''])"

definition footer :: jsstring where
  "footer = js (concat
    [''\<newline>'',
     ''# ---- Restore stdout and RETURN captured text (do NOT print) ----\<newline>'',
     ''sys.stdout = _sys_stdout\<newline>'',
     ''_stdout_buffer.getvalue()\<newline>''])"


section \<open>Exceptions and awaited results\<close>

text \<open>
  A thrown JavaScript value, as far as the source looks at it: its \<^verbatim>\<open>message\<close>
  property when it has one (\<^verbatim>\<open>e?.message\<close>, taken to be a string), and \<^verbatim>\<open>String(e)\<close>.
\<close>

datatype js_error = JSError (message: "jsstring option") (to_string: jsstring)

text \<open>\<^verbatim>\<open>String(e?.message || e)\<close>: the empty string is falsy.\<close>

definition error_text :: "js_error \<Rightarrow> jsstring" where
  "error_text e =
     (case message e of
        Some m \<Rightarrow> if m \<noteq> [] then m else to_string e
      | None \<Rightarrow> to_string e)"

text \<open>
  What the caller of an \<^verbatim>\<open>async\<close> function observes: the promise fulfils with a value,
  rejects with an exception, or never settles.
\<close>

datatype 'a completion = Returns 'a | Throws js_error | Pending

section \<open>The Pyodide loader (\<^verbatim>\<open>loadPyodideOnce\<close>, lines 70 to 101)\<close>

type_synonym handle = nat

text \<open>
  The promise made by the \<^verbatim>\<open>async\<close> arrow function is at one of its \<^verbatim>\<open>await\<close>
  points or settled. A host promise settles with \<open>Resolves\<close> or \<open>Rejects\<close>; only the value
  of \<^verbatim>\<open>window.loadPyodide({...})\<close> is kept by the source.
\<close>

datatype phase =
    Fetching
  | Booting
  | LoadingPackages handle
  | ImportingSeaborn handle
  | InstallingSeaborn handle
  | Fulfilled handle
  | Rejected js_error

datatype reply = Resolves handle | Rejects js_error

text \<open>
  The module variable \<^verbatim>\<open>_pyodidePromise\<close> (an index into the promises made so far, or
  \<^verbatim>\<open>null\<close>), whether \<^verbatim>\<open>window.loadPyodide\<close> is defined, and two counters of what
  has been started: script elements appended to the head, and calls of
  \<^verbatim>\<open>window.loadPyodide\<close>.
\<close>

record loader =
  pyodidePromise :: "nat option"
  promises :: "phase list"
  window_loadPyodide :: bool
  scripts_appended :: nat
  boots :: nat

definition fresh_page :: "bool \<Rightarrow> loader" where
  "fresh_page w =
     \<lparr>pyodidePromise = None, promises = [], window_loadPyodide = w,
      scripts_appended = 0, boots = 0\<rparr>"

text \<open>
  The arrow function up to its first \<^verbatim>\<open>await\<close>, which runs inside the call: without
  \<^verbatim>\<open>window.loadPyodide\<close> it appends the script element and waits for \<^verbatim>\<open>onload\<close>,
  otherwise it calls \<^verbatim>\<open>window.loadPyodide\<close> at once.
\<close>

definition start_init :: "loader \<Rightarrow> nat \<times> loader" where
  "start_init g =
     (if \<not> window_loadPyodide g then
        (length (promises g),
         g\<lparr>promises := promises g @ [Fetching], scripts_appended := Suc (scripts_appended g)\<rparr>)
      else
        (length (promises g),
         g\<lparr>promises := promises g @ [Booting], boots := Suc (boots g)\<rparr>))"

definition loadPyodideOnce :: "loader \<Rightarrow> nat \<times> loader" where
  "loadPyodideOnce g =
     (case pyodidePromise g of
        Some p \<Rightarrow> (p, g)
      | None \<Rightarrow> (case start_init g of (p, g') \<Rightarrow> (p, g'\<lparr>pyodidePromise := Some p\<rparr>)))"

text \<open>
  The rest of the arrow function, one \<^verbatim>\<open>await\<close> at a time. A loaded script defines
  \<^verbatim>\<open>window.loadPyodide\<close>, which is then called. A failed \<^verbatim>\<open>import seaborn\<close> is caught
  and followed by the micropip install; every other rejection rejects the promise.
\<close>

fun advance :: "phase \<Rightarrow> reply \<Rightarrow> phase" where
  "advance Fetching (Resolves v) = Booting"
| "advance Fetching (Rejects e) = Rejected e"
| "advance Booting (Resolves pyodide) = LoadingPackages pyodide"
| "advance Booting (Rejects e) = Rejected e"
| "advance (LoadingPackages pyodide) (Resolves v) = ImportingSeaborn pyodide"
| "advance (LoadingPackages pyodide) (Rejects e) = Rejected e"
| "advance (ImportingSeaborn pyodide) (Resolves v) = Fulfilled pyodide"
| "advance (ImportingSeaborn pyodide) (Rejects e) = InstallingSeaborn pyodide"
| "advance (InstallingSeaborn pyodide) (Resolves v) = Fulfilled pyodide"
| "advance (InstallingSeaborn pyodide) (Rejects e) = Rejected e"
| "advance (Fulfilled pyodide) r = Fulfilled pyodide"
| "advance (Rejected e) r = Rejected e"

definition settle :: "nat \<Rightarrow> reply \<Rightarrow> loader \<Rightarrow> loader" where
  "settle p r g =
     (if p < length (promises g) then
        (case (promises g ! p, r) of
           (Fetching, Resolves v) \<Rightarrow>
             g\<lparr>promises := (promises g)[p := Booting], window_loadPyodide := True,
               boots := Suc (boots g)\<rparr>
         | (ph, r) \<Rightarrow> g\<lparr>promises := (promises g)[p := advance ph r]\<rparr>)
      else g)"

subsection \<open>Interleaved callers\<close>

text \<open>
  JavaScript runs one task at a time: a call of \<^verbatim>\<open>loadPyodideOnce\<close> runs up to its
  \<^verbatim>\<open>return\<close> without interruption, and between calls any host promise may settle.
  An interleaving is a list of such events; the promises handed to the callers are
  collected in call order.
\<close>

datatype event = Call | Settle nat reply

fun fire :: "event \<Rightarrow> loader \<times> nat list \<Rightarrow> loader \<times> nat list" where
  "fire Call (g, handed) = (case loadPyodideOnce g of (p, g') \<Rightarrow> (g', handed @ [p]))"
| "fire (Settle p r) (g, handed) = (settle p r g, handed)"

fun interleave :: "event list \<Rightarrow> loader \<times> nat list \<Rightarrow> loader \<times> nat list" where
  "interleave [] s = s"
| "interleave (ev # evs) s = interleave evs (fire ev s)"

subsection \<open>One caller awaiting the promise\<close>

text \<open>
  How the host answers each awaited operation of the initialisation; \<open>None\<close> is a host
  promise that never settles.
\<close>

record host =
  script_load :: "reply option"
  boot :: "reply option"
  load_packages :: "reply option"
  import_seaborn :: "reply option"
  install_seaborn :: "reply option"

fun host_reply :: "host \<Rightarrow> phase \<Rightarrow> reply option" where
  "host_reply H Fetching = script_load H"
| "host_reply H Booting = boot H"
| "host_reply H (LoadingPackages pyodide) = load_packages H"
| "host_reply H (ImportingSeaborn pyodide) = import_seaborn H"
| "host_reply H (InstallingSeaborn pyodide) = install_seaborn H"
| "host_reply H (Fulfilled pyodide) = None"
| "host_reply H (Rejected e) = None"

fun drive :: "nat \<Rightarrow> host \<Rightarrow> nat \<Rightarrow> loader \<Rightarrow> loader" where
  "drive 0 H p g = g"
| "drive (Suc n) H p g =
     (if p < length (promises g) then
        (case host_reply H (promises g ! p) of
           None \<Rightarrow> g
         | Some r \<Rightarrow> drive n H p (settle p r g))
      else g)"

text \<open>
  \<^verbatim>\<open>await promise\<close>: the initialisation has five \<^verbatim>\<open>await\<close> points, so five host
  answers settle it when the host answers at all.
\<close>

definition await_promise :: "host \<Rightarrow> nat \<Rightarrow> loader \<Rightarrow> handle completion \<times> loader" where
  "await_promise H p g =
     (let g' = drive 5 H p g in
      (if p < length (promises g') then
         (case promises g' ! p of
            Fulfilled pyodide \<Rightarrow> Returns pyodide
          | Rejected e \<Rightarrow> Throws e
          | _ \<Rightarrow> Pending)
       else Pending,
       g'))"

section \<open>The runner hook (\<^verbatim>\<open>usePyRunner\<close>, lines 106 to 222)\<close>

datatype status = Idle | Loading | Ready | Running | Error

record runner =
  status :: status
  errMsg :: jsstring
  pyRef :: "handle option"

definition new_runner :: runner where
  "new_runner = \<lparr>status = Idle, errMsg = [], pyRef = None\<rparr>"

definition ensureReady ::
  "host \<Rightarrow> runner \<times> loader \<Rightarrow> handle completion \<times> (runner \<times> loader)" where
  "ensureReady H s =
     (case s of (r, g) \<Rightarrow>
        (case pyRef r of
           Some py \<Rightarrow> (Returns py, (r, g))
         | None \<Rightarrow>
             (let r1 = r\<lparr>status := Loading, errMsg := []\<rparr> in
              case loadPyodideOnce g of (p, g1) \<Rightarrow>
                (case await_promise H p g1 of
                   (Returns py, g2) \<Rightarrow> (Returns py, (r1\<lparr>pyRef := Some py, status := Ready\<rparr>, g2))
                 | (Throws e, g2) \<Rightarrow> (Throws e, (r1\<lparr>errMsg := error_text e, status := Error\<rparr>, g2))
                 | (Pending, g2) \<Rightarrow> (Pending, (r1, g2))))))"

text \<open>
  What \<^verbatim>\<open>py.runPythonAsync(program)\<close> does is up to the guest: it returns the value of
  the last expression (here \<^verbatim>\<open>String(out)\<close>), raises after having printed something
  into the redirected buffer (which stays inside the guest), or never returns.
\<close>

datatype guest_outcome =
    GuestReturns jsstring
  | GuestRaises jsstring js_error
  | GuestHangs

type_synonym runtime = "handle \<Rightarrow> jsstring \<Rightarrow> guest_outcome"

record run_result =
  r_images :: "jsstring list"
  r_text :: jsstring
  r_error :: "jsstring option"

definition run ::
  "host \<Rightarrow> runtime \<Rightarrow> jsstring \<Rightarrow> runner \<times> loader \<Rightarrow> run_result completion \<times> (runner \<times> loader)" where
  "run H runPythonAsync code s =
     (case ensureReady H s of
        (Throws e, s1) \<Rightarrow> (Throws e, s1)
      | (Pending, s1) \<Rightarrow> (Pending, s1)
      | (Returns py, (r1, g1)) \<Rightarrow>
          (let r2 = r1\<lparr>status := Running, errMsg := []\<rparr> in
           case runPythonAsync py (header @ [LF] @ code @ [LF] @ footer) of
             GuestReturns out \<Rightarrow>
               (case parse_output out of (images, text) \<Rightarrow>
                  (Returns \<lparr>r_images = images, r_text = text, r_error = None\<rparr>,
                   (r2\<lparr>status := Ready\<rparr>, g1)))
           | GuestRaises printed e \<Rightarrow>
               (Returns \<lparr>r_images = [], r_text = [], r_error = Some (error_text e)\<rparr>,
                (r2\<lparr>errMsg := error_text e, status := Error\<rparr>, g1))
           | GuestHangs \<Rightarrow> (Pending, (r2, g1))))"

section \<open>Copying to the clipboard (\<^verbatim>\<open>safeCopyText\<close>, lines 21 to 65)\<close>

text \<open>
  The page as far as \<^verbatim>\<open>safeCopyText\<close> touches it: the children of
  \<^verbatim>\<open>document.body\<close>, the ranges of the selection (each the contents of one element),
  a supply of element identities, and a log of the host calls made so far.
\<close>

datatype tag = Textarea | Span

record element =
  ident :: nat
  tagName :: tag
  content :: jsstring
  style :: "(jsstring \<times> jsstring) list"
  attributes :: "(jsstring \<times> jsstring) list"

datatype call_site =
    WriteText
  | TA_createElement | TA_appendChild | TA_select | TA_setSelectionRange
  | TA_execCommand | TA_removeChild
  | SP_getSelection | SP_createRange | SP_createElement | SP_appendChild
  | SP_selectNodeContents | SP_removeAllRanges | SP_addRange | SP_execCommand
  | SP_removeAllRanges_after | SP_removeChild

record page =
  body :: "element list"
  ranges :: "nat list"
  fresh :: nat
  calls :: "call_site list"

text \<open>
  The browser: which of the guards of line 23 hold, how \<^verbatim>\<open>writeText\<close> settles, which
  host call throws, whether \<^verbatim>\<open>document.execCommand\<close> exists and what it returns.
  \<^verbatim>\<open>window\<close> and \<^verbatim>\<open>document\<close> themselves exist: the file is a browser page.
\<close>

datatype write_outcome = WriteResolves | WriteRejects | WriteNeverSettles

record browser =
  navigator_defined :: bool
  navigator_clipboard :: bool
  isSecureContext :: bool
  writeText :: write_outcome
  throws :: "call_site \<Rightarrow> bool"
  execCommand_defined :: bool
  execCommand_returns :: "call_site \<Rightarrow> bool"

text \<open>
  A block of statements inside \<^verbatim>\<open>try\<close>: each host call either throws, which ends
  the block with the page as it is at that moment (\<open>None\<close>), or has its effect and
  hands its value to the statements after it.
\<close>

type_synonym 'a dom_op = "page \<Rightarrow> 'a option \<times> page"

definition ret :: "'a \<Rightarrow> 'a dom_op" where
  "ret x d = (Some x, d)"

definition seq :: "'a dom_op \<Rightarrow> ('a \<Rightarrow> 'b dom_op) \<Rightarrow> 'b dom_op" where
  "seq m f d = (case m d of (None, d') \<Rightarrow> (None, d') | (Some x, d') \<Rightarrow> f x d')"

definition host_call :: "browser \<Rightarrow> call_site \<Rightarrow> 'a dom_op \<Rightarrow> 'a dom_op" where
  "host_call B c f d =
     (let d1 = d\<lparr>calls := calls d @ [c]\<rparr> in
      if throws B c then (None, d1) else f d1)"

definition createElement :: "tag \<Rightarrow> element dom_op" where
  "createElement t d =
     (Some \<lparr>ident = fresh d, tagName = t, content = [], style = [], attributes = []\<rparr>,
      d\<lparr>fresh := Suc (fresh d)\<rparr>)"

definition appendChild :: "element \<Rightarrow> unit dom_op" where
  "appendChild el d =
     (Some (), d\<lparr>body := filter (\<lambda>x. ident x \<noteq> ident el) (body d) @ [el]\<rparr>)"

text \<open>\<^verbatim>\<open>removeChild\<close> throws \<^verbatim>\<open>NotFoundError\<close> when the node is not a child.\<close>

definition removeChild :: "element \<Rightarrow> unit dom_op" where
  "removeChild el d =
     (if ident el \<in> ident ` set (body d) then
        (Some (), d\<lparr>body := filter (\<lambda>x. ident x \<noteq> ident el) (body d)\<rparr>)
      else (None, d))"

definition removeAllRanges :: "unit dom_op" where
  "removeAllRanges d = (Some (), d\<lparr>ranges := []\<rparr>)"

definition addRange :: "element \<Rightarrow> unit dom_op" where
  "addRange el d = (Some (), d\<lparr>ranges := ranges d @ [ident el]\<rparr>)"

text \<open>\<^verbatim>\<open>document.execCommand && document.execCommand("copy")\<close>\<close>

definition execCommand_copy :: "browser \<Rightarrow> call_site \<Rightarrow> bool dom_op" where
  "execCommand_copy B c =
     (if execCommand_defined B then host_call B c (ret (execCommand_returns B c))
      else ret False)"

text \<open>The body of the second \<^verbatim>\<open>try\<close> (lines 33 to 45), up to the value of \<^verbatim>\<open>ok\<close>.\<close>

definition textarea_copy :: "browser \<Rightarrow> jsstring \<Rightarrow> bool dom_op" where
  "textarea_copy B text =
     seq (host_call B TA_createElement (createElement Textarea)) (\<lambda>ta0.
       let ta = ta0\<lparr>content := text,
                    style := [(js ''position'', js ''fixed''), (js ''top'', js ''-1000px''),
                              (js ''left'', js ''-1000px'')],
                    attributes := [(js ''readonly'', [])]\<rparr> in
       seq (host_call B TA_appendChild (appendChild ta)) (\<lambda>_.
       seq (host_call B TA_select (ret ())) (\<lambda>_.
       seq (host_call B TA_setSelectionRange (ret ())) (\<lambda>_.
       seq (execCommand_copy B TA_execCommand) (\<lambda>ok.
       seq (host_call B TA_removeChild (removeChild ta)) (\<lambda>_.
       ret ok))))))"

text \<open>The body of the third \<^verbatim>\<open>try\<close> (lines 51 to 62), up to the value of \<^verbatim>\<open>ok\<close>.\<close>

definition selection_copy :: "browser \<Rightarrow> jsstring \<Rightarrow> bool dom_op" where
  "selection_copy B text =
     seq (host_call B SP_getSelection (ret ())) (\<lambda>sel.
     seq (host_call B SP_createRange (ret ())) (\<lambda>range.
     seq (host_call B SP_createElement (createElement Span)) (\<lambda>tmp0.
       let tmp = tmp0\<lparr>content := text\<rparr> in
       seq (host_call B SP_appendChild (appendChild tmp)) (\<lambda>_.
       seq (host_call B SP_selectNodeContents (ret ())) (\<lambda>_.
       seq (host_call B SP_removeAllRanges removeAllRanges) (\<lambda>_.
       seq (host_call B SP_addRange (addRange tmp)) (\<lambda>_.
       seq (execCommand_copy B SP_execCommand) (\<lambda>ok.
       seq (host_call B SP_removeAllRanges_after removeAllRanges) (\<lambda>_.
       seq (host_call B SP_removeChild (removeChild tmp)) (\<lambda>_.
       ret ok))))))))))"

record copy_result =
  ok :: bool
  "method" :: jsstring

definition clipboard_usable :: "browser \<Rightarrow> bool" where
  "clipboard_usable B \<longleftrightarrow> navigator_defined B \<and> navigator_clipboard B \<and> isSecureContext B"

text \<open>
  Lines 31 to 64, where control arrives when the clipboard API is not usable or
  \<^verbatim>\<open>writeText\<close> rejected: the two \<^verbatim>\<open>try\<close> blocks in order, each followed by
  \<^verbatim>\<open>if (ok) return ...\<close>, and the last \<^verbatim>\<open>return\<close>.
\<close>

definition fallbacks :: "browser \<Rightarrow> jsstring \<Rightarrow> page \<Rightarrow> copy_result completion \<times> page" where
  "fallbacks B text d =
     (case textarea_copy B text d of
        (Some True, d1) \<Rightarrow> (Returns \<lparr>ok = True, method = js ''execCommand''\<rparr>, d1)
      | (_, d1) \<Rightarrow>
          (case selection_copy B text d1 of
             (Some True, d2) \<Rightarrow> (Returns \<lparr>ok = True, method = js ''selection''\<rparr>, d2)
           | (_, d2) \<Rightarrow> (Returns \<lparr>ok = False, method = js ''blocked''\<rparr>, d2)))"

definition safeCopyText :: "browser \<Rightarrow> jsstring \<Rightarrow> page \<Rightarrow> copy_result completion \<times> page" where
  "safeCopyText B text d =
     (if clipboard_usable B then
        (let d0 = d\<lparr>calls := calls d @ [WriteText]\<rparr> in
         case writeText B of
           WriteResolves \<Rightarrow> (Returns \<lparr>ok = True, method = js ''navigator.clipboard''\<rparr>, d0)
         | WriteRejects \<Rightarrow> fallbacks B text d0
         | WriteNeverSettles \<Rightarrow> (Pending, d0))
      else fallbacks B text d)"

section \<open>Notions used in the statements\<close>

text \<open>How many \<^verbatim>\<open>await\<close> points a promise of the initialisation still has before it.\<close>

fun rank :: "phase \<Rightarrow> nat" where
  "rank Fetching = 5"
| "rank Booting = 4"
| "rank (LoadingPackages pyodide) = 3"
| "rank (ImportingSeaborn pyodide) = 2"
| "rank (InstallingSeaborn pyodide) = 1"
| "rank (Fulfilled pyodide) = 0"
| "rank (Rejected e) = 0"

text \<open>A host that settles every promise the initialisation awaits.\<close>

definition answers :: "host \<Rightarrow> bool" where
  "answers H \<longleftrightarrow>
     script_load H \<noteq> None \<and> boot H \<noteq> None \<and> load_packages H \<noteq> None \<and>
     import_seaborn H \<noteq> None \<and> install_seaborn H \<noteq> None"

text \<open>
  The loader once the first call has been made on a page where \<^verbatim>\<open>window.loadPyodide\<close>
  was defined (\<open>w\<close>) or not.
\<close>

definition started :: "bool \<Rightarrow> loader \<Rightarrow> bool" where
  "started w g \<longleftrightarrow>
     pyodidePromise g = Some 0 \<and> length (promises g) = 1 \<and>
     scripts_appended g = (if w then 0 else 1) \<and>
     boots g \<le> 1 \<and> (promises g = [Fetching] \<longrightarrow> boots g = 0)"

text \<open>
  A \<^verbatim>\<open>try\<close> block of \<^verbatim>\<open>safeCopyText\<close> runs to its \<^verbatim>\<open>return\<close> when no host call in
  it throws and \<^verbatim>\<open>document.execCommand("copy")\<close> exists and returns \<^verbatim>\<open>true\<close>.
\<close>

definition textarea_ok :: "browser \<Rightarrow> bool" where
  "textarea_ok B \<longleftrightarrow>
     \<not> throws B TA_createElement \<and> \<not> throws B TA_appendChild \<and> \<not> throws B TA_select \<and>
     \<not> throws B TA_setSelectionRange \<and> execCommand_defined B \<and>
     \<not> throws B TA_execCommand \<and> execCommand_returns B TA_execCommand \<and>
     \<not> throws B TA_removeChild"

definition selection_ok :: "browser \<Rightarrow> bool" where
  "selection_ok B \<longleftrightarrow>
     \<not> throws B SP_getSelection \<and> \<not> throws B SP_createRange \<and>
     \<not> throws B SP_createElement \<and> \<not> throws B SP_appendChild \<and>
     \<not> throws B SP_selectNodeContents \<and> \<not> throws B SP_removeAllRanges \<and>
     \<not> throws B SP_addRange \<and> execCommand_defined B \<and> \<not> throws B SP_execCommand \<and>
     execCommand_returns B SP_execCommand \<and> \<not> throws B SP_removeAllRanges_after \<and>
     \<not> throws B SP_removeChild"

text \<open>Which of the three strategies a host call belongs to.\<close>

fun strategy_of :: "call_site \<Rightarrow> nat" where
  "strategy_of WriteText = 1"
| "strategy_of TA_createElement = 2"
| "strategy_of TA_appendChild = 2"
| "strategy_of TA_select = 2"
| "strategy_of TA_setSelectionRange = 2"
| "strategy_of TA_execCommand = 2"
| "strategy_of TA_removeChild = 2"
| "strategy_of c = 3"

text \<open>The host calls one run of \<^verbatim>\<open>safeCopyText\<close> makes, in order.\<close>

definition attempts :: "browser \<Rightarrow> jsstring \<Rightarrow> page \<Rightarrow> call_site list" where
  "attempts B text d = drop (length (calls d)) (calls (snd (safeCopyText B text d)))"

subsection \<open>Concrete hosts\<close>

definition network_error :: js_error where
  "network_error = JSError None (js ''[object Event]'')"

definition value_error :: js_error where
  "value_error = JSError (Some (js ''ValueError: boom'')) (js ''PythonError: ValueError: boom'')"

text \<open>The script element fires \<^verbatim>\<open>onerror\<close>.\<close>

definition offline_host :: host where
  "offline_host =
     \<lparr>script_load = Some (Rejects network_error), boot = Some (Resolves 7),
      load_packages = Some (Resolves 0), import_seaborn = Some (Resolves 0),
      install_seaborn = Some (Resolves 0)\<rparr>"

text \<open>Everything loads; seaborn is not bundled and is installed through micropip.\<close>

definition online_host :: host where
  "online_host =
     \<lparr>script_load = Some (Resolves 0), boot = Some (Resolves 7),
      load_packages = Some (Resolves 0), import_seaborn = Some (Rejects network_error),
      install_seaborn = Some (Resolves 0)\<rparr>"

text \<open>A guest that prints \<^verbatim>\<open>partial\<close> and then raises.\<close>

definition raising_runtime :: runtime where
  "raising_runtime py src = GuestRaises (js ''partial\<newline>'') value_error"

definition empty_page :: page where
  "empty_page = \<lparr>body = [], ranges = [], fresh = 0, calls = []\<rparr>"

text \<open>No clipboard API, and \<^verbatim>\<open>execCommand\<close> throws in the textarea block.\<close>

definition leaky_browser :: browser where
  "leaky_browser =
     \<lparr>navigator_defined = True, navigator_clipboard = False, isSecureContext = False,
      writeText = WriteRejects, throws = (\<lambda>c. c = TA_execCommand),
      execCommand_defined = True, execCommand_returns = (\<lambda>c. False)\<rparr>"

text \<open>
  \<^verbatim>\<open>writeText\<close> rejects, \<^verbatim>\<open>document.body.appendChild(ta)\<close> throws, and the copy
  command works on a selection.
\<close>

definition restricted_browser :: browser where
  "restricted_browser =
     \<lparr>navigator_defined = True, navigator_clipboard = True, isSecureContext = True,
      writeText = WriteRejects, throws = (\<lambda>c. c = TA_appendChild),
      execCommand_defined = True, execCommand_returns = (\<lambda>c. c = SP_execCommand)\<rparr>"

section \<open>The output parser\<close>

lemma length_sentinel: "length sentinel = 7"
  by (simp add: sentinel_def js_def)

lemma replace_prefix: "startsWith s p \<Longrightarrow> replace s p r = r @ drop (length p) s"
  by (cases s) (auto split: if_splits elim: startsWith.elims)

lemma parse_lines_images:
  "fst (parse_lines ls (im, tx)) =
     im @ map (\<lambda>l. data_url_prefix @ drop (length sentinel) l)
            (filter (\<lambda>l. startsWith l sentinel) ls)"
  by (induction ls arbitrary: im tx) (simp_all add: replace_prefix)

lemma parse_lines_text:
  "snd (parse_lines ls (im, tx)) =
     tx @ concat (map (\<lambda>l. l @ [LF])
                   (filter (\<lambda>l. \<not> startsWith l sentinel \<and> trim l \<noteq> []) ls))"
  by (induction ls arbitrary: im tx) simp_all

lemma dropWhile_all: "(\<forall>x\<in>set (dropWhile P l). P x) \<longleftrightarrow> (\<forall>x\<in>set l. P x)"
  by (induction l) auto

lemma trim_empty_iff: "trim l = [] \<longleftrightarrow> list_all is_ws l"
  by (simp add: trim_def dropWhile_eq_Nil_conv list_all_iff dropWhile_all)

lemma split_lines_nonempty: "split_lines s \<noteq> []"
  by (induction s) (auto split: list.splits)

lemma split_lines_no_LF: "l \<in> set (split_lines s) \<Longrightarrow> LF \<notin> set l"
  by (induction s arbitrary: l) (auto split: list.splits if_splits)

text \<open>
  C6. Every line of the raw output that begins with \<^verbatim>\<open>__IMG__\<close> yields one image, the
  data URL of the line without that prefix, in the order of the lines; the text is what
  the other lines alone would give, so an image line adds nothing to it. The raw line
  \<^verbatim>\<open>__IMG__AAAA\<close> gives the single image with payload \<^verbatim>\<open>AAAA\<close> and no text.
\<close>

theorem image_lines_round_trip:
  "fst (parse_output raw) =
     map (\<lambda>l. data_url_prefix @ drop (length sentinel) l)
       (filter (\<lambda>l. startsWith l sentinel) (split_lines raw)) \<and>
   snd (parse_output raw) =
     snd (parse_lines (filter (\<lambda>l. \<not> startsWith l sentinel) (split_lines raw)) ([], [])) \<and>
   parse_output (sentinel @ js ''AAAA'') = ([data_url_prefix @ js ''AAAA''], [])"
proof -
  have "fst (parse_output raw) =
      map (\<lambda>l. data_url_prefix @ drop (length sentinel) l)
        (filter (\<lambda>l. startsWith l sentinel) (split_lines raw))"
    by (simp add: parse_output_def parse_lines_images)
  moreover have "snd (parse_output raw) =
      snd (parse_lines (filter (\<lambda>l. \<not> startsWith l sentinel) (split_lines raw)) ([], []))"
    by (simp add: parse_output_def parse_lines_text conj_commute)
  moreover have "parse_output (sentinel @ js ''AAAA'') = ([data_url_prefix @ js ''AAAA''], [])"
    by (simp add: parse_output_def sentinel_def js_def LF_def)
  ultimately show ?thesis by blast
qed

text \<open>Two image lines around a text line: two images, in the order of the lines.\<close>

theorem image_lines_round_trip_witness:
  "fst (parse_output (js ''__IMG__QQ\<newline>a\<newline>__IMG__RR'')) =
     [data_url_prefix @ js ''QQ'', data_url_prefix @ js ''RR''] \<and>
   snd (parse_output (js ''__IMG__QQ\<newline>a\<newline>__IMG__RR'')) = js ''a\<newline>''"
  using image_lines_round_trip [of "js ''__IMG__QQ\<newline>a\<newline>__IMG__RR''"]
  by (simp add: sentinel_def js_def LF_def trim_def is_ws_def)

text \<open>
  C7. The text is the lines that do not begin with the sentinel and are not blank, each
  followed by a line feed, in their order; blank lines leave nothing. The raw output
  \<^verbatim>\<open>"x\n\n\ny\n"\<close> gives the text \<^verbatim>\<open>"x\ny\n"\<close>.
\<close>

theorem text_lines_kept_in_order:
  "snd (parse_output raw) =
     concat (map (\<lambda>l. l @ [LF])
       (filter (\<lambda>l. \<not> startsWith l sentinel \<and> trim l \<noteq> []) (split_lines raw))) \<and>
   snd (parse_output (js ''x\<newline>\<newline>\<newline>y\<newline>'')) = js ''x\<newline>y\<newline>''"
proof -
  have "snd (parse_output (js ''x\<newline>\<newline>\<newline>y\<newline>'')) = js ''x\<newline>y\<newline>''"
    by (simp add: parse_output_def sentinel_def js_def trim_def is_ws_def LF_def)
  then show ?thesis
    by (simp add: parse_output_def parse_lines_text)
qed

theorem text_lines_kept_in_order_witness:
  "snd (parse_output (js ''one\<newline>\<newline>two'')) = js ''one\<newline>two\<newline>''"
  using text_lines_kept_in_order [of "js ''one\<newline>\<newline>two''"]
  by (simp add: sentinel_def js_def LF_def trim_def is_ws_def)

text \<open>
  C10. A line made of white space only (spaces, tabs and the other characters that
  \<^verbatim>\<open>trim\<close> removes) leaves nothing in the text; a line that does not begin with the
  sentinel and has a character that is not white space is appended as it is, with its
  leading and trailing white space, followed by a line feed. A line of space, tab,
  space is dropped and the line \<^verbatim>\<open>"  a b  "\<close> is kept whole.
\<close>

theorem whitespace_only_lines_dropped:
  "snd (parse_output raw) =
     concat (map (\<lambda>l. l @ [LF])
       (filter (\<lambda>l. \<not> startsWith l sentinel \<and> \<not> list_all is_ws l) (split_lines raw))) \<and>
   snd (parse_output ([0x20, 0x9, 0x20] @ [LF] @ js ''  a b  '' @ [LF])) = js ''  a b  '' @ [LF]"
proof -
  have "snd (parse_output ([0x20, 0x9, 0x20] @ [LF] @ js ''  a b  '' @ [LF])) =
      js ''  a b  '' @ [LF]"
    by (simp add: parse_output_def sentinel_def js_def trim_def is_ws_def LF_def)
  then show ?thesis
    by (simp add: parse_output_def parse_lines_text trim_empty_iff)
qed

theorem whitespace_only_lines_dropped_witness:
  "snd (parse_output ([0x9, 0xA0] @ [LF] @ js '' z'')) = js '' z'' @ [LF]"
  using whitespace_only_lines_dropped [of "[0x9, 0xA0] @ [LF] @ js '' z''"]
  by (simp add: sentinel_def js_def LF_def is_ws_def)

section \<open>The loader\<close>

lemma started_call: "started w g \<Longrightarrow> loadPyodideOnce g = (0, g)"
  by (simp add: started_def loadPyodideOnce_def)

lemma fresh_call:
  "started w (snd (loadPyodideOnce (fresh_page w))) \<and> fst (loadPyodideOnce (fresh_page w)) = 0"
  by (simp add: started_def loadPyodideOnce_def fresh_page_def start_init_def)

lemma advance_not_Fetching: "advance ph r \<noteq> Fetching"
  by (cases ph; cases r) simp_all

lemma started_settle: "started w g \<Longrightarrow> started w (settle p r g)"
proof (cases "promises g")
  case Nil
  assume "started w g"
  with Nil show ?thesis by (simp add: started_def)
next
  case (Cons ph rest)
  assume "started w g"
  with Cons show ?thesis
    by (cases ph; cases r)
       (auto simp: started_def settle_def advance_not_Fetching split: if_splits)
qed

lemma fresh_settle: "settle p r (fresh_page w) = fresh_page w"
  by (simp add: settle_def fresh_page_def)

lemma settle_settled:
  "started w g \<Longrightarrow> rank (promises g ! 0) = 0 \<Longrightarrow> promises (settle p r g) = promises g"
  by (cases "promises g"; cases "promises g ! 0"; cases r)
     (auto simp: started_def settle_def split: if_splits)

lemma interleave_started:
  "started w g \<Longrightarrow> interleave evs (g, handed) = (g', handed') \<Longrightarrow>
     started w g' \<and> handed' = handed @ replicate (length (filter (\<lambda>e. e = Call) evs)) 0"
proof (induction evs arbitrary: g handed)
  case Nil
  then show ?case by simp
next
  case (Cons ev evs)
  show ?case
  proof (cases ev)
    case Call
    with Cons.prems have "interleave evs (g, handed @ [0]) = (g', handed')"
      by (simp add: started_call)
    from Cons.IH [OF Cons.prems(1) this] Call show ?thesis
      by (simp add: replicate_append_same)
  next
    case (Settle p r)
    with Cons.prems have "interleave evs (settle p r g, handed) = (g', handed')"
      by simp
    from Cons.IH [OF started_settle [OF Cons.prems(1)] this] Settle show ?thesis
      by simp
  qed
qed

lemma interleave_fresh:
  "interleave evs (fresh_page w, []) = (g', handed') \<Longrightarrow>
     (if Call \<in> set evs then started w g' else g' = fresh_page w) \<and>
     handed' = replicate (length (filter (\<lambda>e. e = Call) evs)) 0"
proof (induction evs)
  case Nil
  then show ?case by simp
next
  case (Cons ev evs)
  show ?case
  proof (cases ev)
    case Call
    obtain g1 where g1: "loadPyodideOnce (fresh_page w) = (0, g1)" "started w g1"
      using fresh_call [of w] by (cases "loadPyodideOnce (fresh_page w)") auto
    with Cons.prems Call have "interleave evs (g1, [0]) = (g', handed')"
      by simp
    from interleave_started [OF g1(2) this] Call show ?thesis
      by (simp add: replicate_append_same)
  next
    case (Settle p r)
    with Cons.prems have "interleave evs (fresh_page w, []) = (g', handed')"
      by (simp add: fresh_settle)
    from Cons.IH [OF this] Settle show ?thesis by simp
  qed
qed

lemma interleave_settled:
  "started w g \<Longrightarrow> rank (promises g ! 0) = 0 \<Longrightarrow>
     promises (fst (interleave evs (g, handed))) = promises g"
proof (induction evs arbitrary: g handed)
  case Nil
  then show ?case by simp
next
  case (Cons ev evs)
  show ?case
  proof (cases ev)
    case Call
    with Cons show ?thesis by (simp add: started_call)
  next
    case (Settle p r)
    have eq: "promises (settle p r g) = promises g"
      using Cons.prems by (rule settle_settled)
    have "promises (fst (interleave evs (settle p r g, handed))) = promises (settle p r g)"
      using Cons.prems eq by (intro Cons.IH started_settle) simp_all
    with Settle eq show ?thesis by simp
  qed
qed

text \<open>
  C2. Whatever the interleaving of calls of \<^verbatim>\<open>loadPyodideOnce\<close> and settlements of host
  promises on a fresh page, once a call has been made there is one promise of the
  initialisation and no other is ever made; every caller is handed that promise, so all
  of them see the one outcome, which no later event changes once it is settled. The
  script element is appended once when \<^verbatim>\<open>window.loadPyodide\<close> was not defined and not
  at all when it was, and \<^verbatim>\<open>window.loadPyodide\<close> is called at most once.
\<close>

theorem single_initialisation:
  assumes "Call \<in> set evs"
    and "interleave evs (fresh_page w, []) = (g, handed)"
  shows "length (promises g) = 1 \<and> pyodidePromise g = Some 0 \<and>
         scripts_appended g = (if w then 0 else 1) \<and> boots g \<le> 1 \<and>
         handed = replicate (length (filter (\<lambda>e. e = Call) evs)) 0 \<and>
         (rank (promises g ! 0) = 0 \<longrightarrow>
            promises (fst (interleave later (g, handed))) ! 0 = promises g ! 0)"
proof -
  from interleave_fresh [OF assms(2)] assms(1)
  have s: "started w g" and h: "handed = replicate (length (filter (\<lambda>e. e = Call) evs)) 0"
    by simp_all
  from s have "length (promises g) = 1" "pyodidePromise g = Some 0"
    "scripts_appended g = (if w then 0 else 1)" "boots g \<le> 1"
    by (simp_all add: started_def)
  moreover have "rank (promises g ! 0) = 0 \<longrightarrow>
      promises (fst (interleave later (g, handed))) ! 0 = promises g ! 0"
    using interleave_settled [OF s] by simp
  ultimately show ?thesis using h by blast
qed

text \<open>
  Three callers between the settlements of a load that succeeds: all are handed promise
  0, which is fulfilled with the runtime and stays so when a fourth call and a late
  rejection follow.
\<close>

theorem single_initialisation_witness:
  "Call \<in> set [Call, Settle 0 (Resolves 0), Call, Settle 0 (Resolves 7),
                Settle 0 (Resolves 0), Call, Settle 0 (Resolves 0)] \<and>
   snd (interleave [Call, Settle 0 (Resolves 0), Call, Settle 0 (Resolves 7),
                    Settle 0 (Resolves 0), Call, Settle 0 (Resolves 0)]
          (fresh_page False, [])) = [0, 0, 0] \<and>
   promises (fst (interleave [Call, Settle 0 (Resolves 0), Call, Settle 0 (Resolves 7),
                    Settle 0 (Resolves 0), Call, Settle 0 (Resolves 0)]
          (fresh_page False, []))) = [Fulfilled 7] \<and>
   scripts_appended (fst (interleave [Call, Settle 0 (Resolves 0), Call, Settle 0 (Resolves 7),
                    Settle 0 (Resolves 0), Call, Settle 0 (Resolves 0)]
          (fresh_page False, []))) = 1 \<and>
   promises (fst (interleave [Call, Settle 0 (Rejects network_error)]
      (interleave [Call, Settle 0 (Resolves 0), Call, Settle 0 (Resolves 7),
                    Settle 0 (Resolves 0), Call, Settle 0 (Resolves 0)]
          (fresh_page False, [])))) ! 0 = Fulfilled 7"
  using single_initialisation [of
      "[Call, Settle 0 (Resolves 0), Call, Settle 0 (Resolves 7),
        Settle 0 (Resolves 0), Call, Settle 0 (Resolves 0)]" False
      "fst (interleave [Call, Settle 0 (Resolves 0), Call, Settle 0 (Resolves 7),
                    Settle 0 (Resolves 0), Call, Settle 0 (Resolves 0)]
          (fresh_page False, []))"
      "snd (interleave [Call, Settle 0 (Resolves 0), Call, Settle 0 (Resolves 7),
                    Settle 0 (Resolves 0), Call, Settle 0 (Resolves 0)]
          (fresh_page False, []))"
      "[Call, Settle 0 (Rejects network_error)]"]
  by (simp add: loadPyodideOnce_def start_init_def settle_def fresh_page_def)

text \<open>
  Two callers on a page where \<^verbatim>\<open>window.loadPyodide\<close> is already defined: no script
  element is appended, so the number of bootstrap fetches is not one.
\<close>

theorem single_initialisation_counterexample:
  "scripts_appended (fst (interleave [Call, Call] (fresh_page True, []))) \<noteq> 1"
  by (simp add: loadPyodideOnce_def fresh_page_def start_init_def)

section \<open>The runner\<close>

lemma settle_pyodidePromise [simp]: "pyodidePromise (settle p r g) = pyodidePromise g"
  by (simp add: settle_def split: phase.splits reply.splits)

lemma settle_length [simp]: "length (promises (settle p r g)) = length (promises g)"
  by (simp add: settle_def split: phase.splits reply.splits)

lemma settle_phase:
  "p < length (promises g) \<Longrightarrow> promises (settle p r g) ! p = advance (promises g ! p) r"
  by (cases "promises g ! p"; cases r) (simp_all add: settle_def)

lemma drive_pyodidePromise [simp]: "pyodidePromise (drive n H p g) = pyodidePromise g"
  by (induction n H p g rule: drive.induct) (simp_all split: option.splits)

lemma drive_length [simp]: "length (promises (drive n H p g)) = length (promises g)"
  by (induction n H p g rule: drive.induct) (simp_all split: option.splits)

lemma drive_settled:
  "p < length (promises g) \<Longrightarrow> host_reply H (promises g ! p) = None \<Longrightarrow> drive n H p g = g"
  by (cases n) simp_all

lemma rank_advance: "rank (advance ph r) \<le> rank ph - 1"
  by (cases ph; cases r) simp_all

lemma rank_le_5: "rank ph \<le> 5"
  by (cases ph) simp_all

text \<open>Five answers of the host are enough for the promise to be settled.\<close>

lemma drive_rank:
  "answers H \<Longrightarrow> p < length (promises g) \<Longrightarrow> rank (promises g ! p) \<le> n \<Longrightarrow>
     rank (promises (drive n H p g) ! p) = 0"
proof (induction n arbitrary: g)
  case 0
  then show ?case by simp
next
  case (Suc n)
  show ?case
  proof (cases "host_reply H (promises g ! p)")
    case None
    with Suc.prems(1) have "rank (promises g ! p) = 0"
      by (cases "promises g ! p") (simp_all add: answers_def)
    with None Suc.prems(2) show ?thesis by simp
  next
    case (Some r)
    have "rank (promises (settle p r g) ! p) \<le> n"
      using rank_advance [of "promises g ! p" r] Suc.prems(2,3)
      by (auto simp: settle_phase)
    from Suc.IH [OF Suc.prems(1) _ this] Some Suc.prems(2) show ?thesis by simp
  qed
qed

lemma await_promise_settles:
  "answers H \<Longrightarrow> p < length (promises g) \<Longrightarrow> fst (await_promise H p g) \<noteq> Pending"
  using drive_rank [of H p g 5, OF _ _ rank_le_5]
  by (cases "promises (drive 5 H p g) ! p") (simp_all add: await_promise_def Let_def)

lemma await_promise_rejected:
  "p < length (promises g) \<Longrightarrow> promises g ! p = Rejected e \<Longrightarrow>
     await_promise H p g = (Throws e, g)"
  by (simp add: await_promise_def drive_settled)

lemma await_promise_Throws:
  "fst (await_promise H p g) = Throws e \<Longrightarrow>
     p < length (promises (snd (await_promise H p g))) \<and>
     promises (snd (await_promise H p g)) ! p = Rejected e"
  by (auto simp: await_promise_def Let_def split: if_splits phase.splits)

lemma await_promise_pyodidePromise [simp]:
  "pyodidePromise (snd (await_promise H p g)) = pyodidePromise g"
  by (simp add: await_promise_def Let_def)

lemma loadPyodideOnce_sets: "loadPyodideOnce g = (p, g1) \<Longrightarrow> pyodidePromise g1 = Some p"
  by (auto simp: loadPyodideOnce_def start_init_def split: option.splits if_splits)

lemma loadPyodideOnce_valid:
  "(\<And>q. pyodidePromise g = Some q \<Longrightarrow> q < length (promises g)) \<Longrightarrow>
     loadPyodideOnce g = (p, g1) \<Longrightarrow> p < length (promises g1)"
  by (auto simp: loadPyodideOnce_def start_init_def split: option.splits if_splits)

lemma ensureReady_Throws:
  assumes "fst (ensureReady H (r, g)) = Throws e"
  shows "\<exists>p g2. snd (ensureReady H (r, g)) = (r\<lparr>status := Error, errMsg := error_text e\<rparr>, g2) \<and>
           pyRef r = None \<and> pyodidePromise g2 = Some p \<and> p < length (promises g2) \<and>
           promises g2 ! p = Rejected e"
proof -
  from assms have none: "pyRef r = None"
    by (cases "pyRef r") (simp_all add: ensureReady_def)
  obtain p g1 where l: "loadPyodideOnce g = (p, g1)" by (cases "loadPyodideOnce g")
  obtain c g2 where a: "await_promise H p g1 = (c, g2)" by (cases "await_promise H p g1")
  from assms none l a have c: "c = Throws e"
    by (cases c) (simp_all add: ensureReady_def)
  from await_promise_Throws [of H p g1 e] a c
  have "p < length (promises g2)" "promises g2 ! p = Rejected e" by simp_all
  moreover have "pyodidePromise g2 = Some p"
    using await_promise_pyodidePromise [of H p g1] a loadPyodideOnce_sets [OF l] by simp
  moreover have "snd (ensureReady H (r, g)) = (r\<lparr>status := Error, errMsg := error_text e\<rparr>, g2)"
    using none l a c by (simp add: ensureReady_def)
  ultimately show ?thesis using none by blast
qed

lemma ensureReady_memoized_failure:
  assumes "pyRef r = None" "pyodidePromise g = Some p" "p < length (promises g)"
    "promises g ! p = Rejected e"
  shows "ensureReady H' (r, g) = (Throws e, (r\<lparr>status := Error, errMsg := error_text e\<rparr>, g))"
  using assms by (simp add: ensureReady_def loadPyodideOnce_def await_promise_rejected)

text \<open>With a host that answers, \<^verbatim>\<open>ensureReady\<close> returns or throws.\<close>

lemma ensureReady_settles:
  assumes "answers H" and "\<And>q. pyodidePromise g = Some q \<Longrightarrow> q < length (promises g)"
  shows "fst (ensureReady H (r, g)) \<noteq> Pending"
proof (cases "pyRef r")
  case (Some py)
  then show ?thesis by (simp add: ensureReady_def)
next
  case None
  obtain p g1 where l: "loadPyodideOnce g = (p, g1)" by (cases "loadPyodideOnce g")
  obtain c g2 where a: "await_promise H p g1 = (c, g2)" by (cases "await_promise H p g1")
  have "p < length (promises g1)" using assms(2) l by (rule loadPyodideOnce_valid)
  with await_promise_settles [OF assms(1), of p g1] a have "c \<noteq> Pending" by simp
  with None l a show ?thesis by (cases c) (simp_all add: ensureReady_def)
qed

lemma run_Throws_iff:
  "fst (run H rt code s) = Throws e \<longleftrightarrow> fst (ensureReady H s) = Throws e"
  by (cases "ensureReady H s")
     (auto simp: run_def Let_def split: completion.splits guest_outcome.splits prod.splits)

lemma run_Throws_state:
  "fst (ensureReady H s) = Throws e \<Longrightarrow> snd (run H rt code s) = snd (ensureReady H s)"
  by (cases "ensureReady H s") (auto simp: run_def)

lemma run_guest_raises:
  assumes "fst (ensureReady H s) = Returns py"
    and "rt py (header @ [LF] @ code @ [LF] @ footer) = GuestRaises printed e"
  shows "fst (run H rt code s) =
     Returns \<lparr>r_images = [], r_text = [], r_error = Some (error_text e)\<rparr>"
  using assms by (cases "ensureReady H s") (auto simp: run_def Let_def split: prod.splits)

lemma run_guest_returns:
  assumes "fst (ensureReady H s) = Returns py"
    and "rt py (header @ [LF] @ code @ [LF] @ footer) = GuestReturns out"
  shows "fst (run H rt code s) =
     Returns \<lparr>r_images = fst (parse_output out), r_text = snd (parse_output out),
              r_error = None\<rparr>"
  using assms by (cases "ensureReady H s") (auto simp: run_def Let_def split: prod.splits)

lemma run_returns:
  assumes "fst (ensureReady H s) = Returns py"
    and "rt py (header @ [LF] @ code @ [LF] @ footer) \<noteq> GuestHangs"
  shows "\<exists>res. fst (run H rt code s) = Returns res"
  using assms
  by (cases "ensureReady H s"; cases "rt py (header @ [LF] @ code @ [LF] @ footer)")
     (auto simp: run_def Let_def split: prod.splits)

text \<open>With a host that answers and a guest that does not hang, \<^verbatim>\<open>run\<close> settles.\<close>

lemma run_settles:
  assumes "answers H" and "\<And>q. pyodidePromise g = Some q \<Longrightarrow> q < length (promises g)"
    and "\<And>py. rt py (header @ [LF] @ code @ [LF] @ footer) \<noteq> GuestHangs"
  shows "fst (run H rt code (r, g)) \<noteq> Pending"
proof (cases "fst (ensureReady H (r, g))")
  case (Returns py)
  with run_returns [of H "(r, g)" py rt code] assms(3) [of py] show ?thesis by auto
next
  case (Throws e)
  then have "fst (run H rt code (r, g)) = Throws e" by (simp add: run_Throws_iff)
  then show ?thesis by simp
next
  case Pending
  with ensureReady_settles [OF assms(1,2), of r] show ?thesis by simp
qed

lemma error_text_message: "message e = Some m \<Longrightarrow> m \<noteq> [] \<Longrightarrow> error_text e = m"
  by (simp add: error_text_def)

lemmas eval_defs = ensureReady_def loadPyodideOnce_def start_init_def await_promise_def
  settle_def fresh_page_def new_runner_def numeral_eq_Suc Let_def

lemma offline_load_fails:
  "fst (ensureReady offline_host (new_runner, fresh_page False)) = Throws network_error"
  by (simp add: eval_defs offline_host_def)

lemma online_load_succeeds:
  "fst (ensureReady online_host (new_runner, fresh_page False)) = Returns 7"
  by (simp add: eval_defs online_host_def)

lemma raising_runtime_raises:
  "raising_runtime py src = GuestRaises (js ''partial\<newline>'') value_error"
  by (simp add: raising_runtime_def)

lemma error_text_value_error: "error_text value_error = js ''ValueError: boom''"
  by (simp add: error_text_def value_error_def js_def)

text \<open>
  C1. \<^verbatim>\<open>run\<close> throws to its caller exactly when \<^verbatim>\<open>ensureReady\<close> throws, that is when
  the load of the runtime fails; that failure is also recorded in the hook's
  \<^verbatim>\<open>status\<close> and \<^verbatim>\<open>errMsg\<close>. Once the runtime is there, whatever the guest does short
  of hanging, \<^verbatim>\<open>run\<close> returns a result: when the guest raises, the result has no
  images, empty text and \<^verbatim>\<open>String(e?.message || e)\<close> of the exception in its error
  field; when the guest returns, the result is the parsed output with no error field.
\<close>

theorem run_throws_exactly_on_load_failure:
  "(fst (run H rt code (r, g)) = Throws e \<longleftrightarrow> fst (ensureReady H (r, g)) = Throws e) \<and>
   (fst (ensureReady H (r, g)) = Throws e \<longrightarrow>
      status (fst (snd (run H rt code (r, g)))) = Error \<and>
      errMsg (fst (snd (run H rt code (r, g)))) = error_text e) \<and>
   (fst (ensureReady H (r, g)) = Returns py \<longrightarrow>
      rt py (header @ [LF] @ code @ [LF] @ footer) \<noteq> GuestHangs \<longrightarrow>
      (\<exists>res. fst (run H rt code (r, g)) = Returns res)) \<and>
   (fst (ensureReady H (r, g)) = Returns py \<longrightarrow>
      rt py (header @ [LF] @ code @ [LF] @ footer) = GuestRaises printed x \<longrightarrow>
      fst (run H rt code (r, g)) =
        Returns \<lparr>r_images = [], r_text = [], r_error = Some (error_text x)\<rparr>) \<and>
   (fst (ensureReady H (r, g)) = Returns py \<longrightarrow>
      rt py (header @ [LF] @ code @ [LF] @ footer) = GuestReturns out \<longrightarrow>
      fst (run H rt code (r, g)) =
        Returns \<lparr>r_images = fst (parse_output out), r_text = snd (parse_output out),
                 r_error = None\<rparr>)"
proof (intro conjI impI)
  show "fst (run H rt code (r, g)) = Throws e \<longleftrightarrow> fst (ensureReady H (r, g)) = Throws e"
    by (rule run_Throws_iff)
next
  assume t: "fst (ensureReady H (r, g)) = Throws e"
  from ensureReady_Throws [OF t] obtain g2 where
    "snd (ensureReady H (r, g)) = (r\<lparr>status := Error, errMsg := error_text e\<rparr>, g2)" by blast
  with run_Throws_state [OF t, of rt code]
  have s: "snd (run H rt code (r, g)) = (r\<lparr>status := Error, errMsg := error_text e\<rparr>, g2)"
    by simp
  show "status (fst (snd (run H rt code (r, g)))) = Error" by (simp add: s)
  show "errMsg (fst (snd (run H rt code (r, g)))) = error_text e" by (simp add: s)
next
  assume "fst (ensureReady H (r, g)) = Returns py"
    and "rt py (header @ [LF] @ code @ [LF] @ footer) \<noteq> GuestHangs"
  then show "\<exists>res. fst (run H rt code (r, g)) = Returns res"
    using run_returns [of H "(r, g)" py rt code] by simp
next
  assume "fst (ensureReady H (r, g)) = Returns py"
    and "rt py (header @ [LF] @ code @ [LF] @ footer) = GuestRaises printed x"
  then show "fst (run H rt code (r, g)) =
      Returns \<lparr>r_images = [], r_text = [], r_error = Some (error_text x)\<rparr>"
    using run_guest_raises [of H "(r, g)" py rt code printed x] by simp
next
  assume "fst (ensureReady H (r, g)) = Returns py"
    and "rt py (header @ [LF] @ code @ [LF] @ footer) = GuestReturns out"
  then show "fst (run H rt code (r, g)) =
      Returns \<lparr>r_images = fst (parse_output out), r_text = snd (parse_output out),
               r_error = None\<rparr>"
    using run_guest_returns [of H "(r, g)" py rt code out] by simp
qed

text \<open>
  The script fails to load: \<^verbatim>\<open>run\<close> throws and the hook is in the error state. With
  the runtime loaded and a guest that raises, \<^verbatim>\<open>run\<close> returns the message of the
  exception in the error field.
\<close>

theorem run_throws_exactly_on_load_failure_witness:
  "fst (ensureReady offline_host (new_runner, fresh_page False)) = Throws network_error \<and>
   fst (run offline_host raising_runtime (js ''print(1)'') (new_runner, fresh_page False)) =
     Throws network_error \<and>
   status (fst (snd (run offline_host raising_runtime (js ''print(1)'')
     (new_runner, fresh_page False)))) = Error \<and>
   fst (ensureReady online_host (new_runner, fresh_page False)) = Returns 7 \<and>
   fst (run online_host raising_runtime (js ''print(1)'') (new_runner, fresh_page False)) =
     Returns \<lparr>r_images = [], r_text = [], r_error = Some (js ''ValueError: boom'')\<rparr>"
  using offline_load_fails online_load_succeeds
    run_throws_exactly_on_load_failure [where H = offline_host and rt = raising_runtime
      and code = "js ''print(1)''" and r = new_runner and g = "fresh_page False"
      and e = network_error and py = 0]
    run_throws_exactly_on_load_failure [where H = online_host and rt = raising_runtime
      and code = "js ''print(1)''" and r = new_runner and g = "fresh_page False"
      and e = network_error and py = 7 and printed = "js ''partial\<newline>''"
      and x = value_error]
  by (simp add: raising_runtime_raises error_text_value_error)

text \<open>The script fails to load and \<^verbatim>\<open>run\<close> throws the load error to its caller.\<close>

theorem run_throws_counterexample:
  "fst (run offline_host raising_runtime (js ''print(1)'') (new_runner, fresh_page False)) =
     Throws network_error"
  by (simp add: run_def eval_defs offline_host_def)

text \<open>
  C3. When the guest raises after printing, \<^verbatim>\<open>run\<close> returns a result whose text is
  empty whatever had been printed, whose images are empty, and whose error is
  \<^verbatim>\<open>String(e?.message || e)\<close>, the message of the exception when that is not empty.
\<close>

theorem partial_output_discarded:
  assumes "fst (ensureReady H s) = Returns py"
    and "rt py (header @ [LF] @ code @ [LF] @ footer) = GuestRaises printed e"
  shows "\<exists>res. fst (run H rt code s) = Returns res \<and> r_text res = [] \<and> r_images res = [] \<and>
           r_error res = Some (error_text e) \<and>
           (\<forall>m. message e = Some m \<longrightarrow> m \<noteq> [] \<longrightarrow> r_error res = Some m)"
  using assms run_guest_raises [of H s py rt code printed e]
  by (simp add: error_text_message)

theorem partial_output_discarded_witness:
  "\<exists>res. fst (run online_host raising_runtime (js ''print('partial'); raise ValueError('boom')'')
       (new_runner, fresh_page False)) = Returns res \<and>
     r_text res = [] \<and> r_error res = Some (js ''ValueError: boom'')"
  using online_load_succeeds
    partial_output_discarded [of online_host "(new_runner, fresh_page False)" 7
      raising_runtime "js ''print('partial'); raise ValueError('boom')''"
      "js ''partial\<newline>''" value_error]
  by (auto simp: error_text_value_error raising_runtime_raises)

text \<open>
  The guest prints \<^verbatim>\<open>partial\<close> and raises: the text of the result is empty, so it does
  not contain \<^verbatim>\<open>partial\<close>.
\<close>

theorem partial_output_counterexample:
  "fst (run online_host raising_runtime (js ''print('partial'); raise ValueError('boom')'')
     (new_runner, fresh_page False)) =
   Returns \<lparr>r_images = [], r_text = [], r_error = Some (js ''ValueError: boom'')\<rparr>"
  by (simp add: run_def eval_defs online_host_def raising_runtime_def error_text_value_error)

text \<open>
  C4. When the guest raises, \<^verbatim>\<open>run\<close> returns the result with empty text, no images
  and the error \<^verbatim>\<open>String(e?.message || e)\<close>, which is the message of the exception when
  it has a non-empty one.
\<close>

theorem guest_exception_result:
  assumes "fst (ensureReady H s) = Returns py"
    and "rt py (header @ [LF] @ code @ [LF] @ footer) = GuestRaises printed e"
  shows "fst (run H rt code s) =
           Returns \<lparr>r_images = [], r_text = [], r_error = Some (error_text e)\<rparr> \<and>
         (\<forall>m. message e = Some m \<and> m \<noteq> [] \<longrightarrow> error_text e = m)"
  using assms run_guest_raises [of H s py rt code printed e]
  by (simp add: error_text_message)

theorem guest_exception_result_witness:
  "fst (run online_host raising_runtime (js ''raise ValueError('boom')'')
     (new_runner, fresh_page False)) =
   Returns \<lparr>r_images = [], r_text = [], r_error = Some (js ''ValueError: boom'')\<rparr>"
  using online_load_succeeds
    guest_exception_result [of online_host "(new_runner, fresh_page False)" 7
      raising_runtime "js ''raise ValueError('boom')''" "js ''partial\<newline>''" value_error]
  by (simp add: error_text_value_error raising_runtime_raises)

text \<open>
  C5. After a load has failed, a later \<^verbatim>\<open>ensureReady\<close> starts nothing: whatever the host
  would answer now, it is handed the memoised rejected promise, throws the same error
  and leaves the loader and the hook as they were, the hook in the error state with the
  message of the failure. The call reports a failure, not a pending load.
\<close>

theorem failed_load_is_memoized:
  assumes "fst (ensureReady H (r, g)) = Throws e"
  shows "ensureReady H' (snd (ensureReady H (r, g))) = (Throws e, snd (ensureReady H (r, g))) \<and>
         status (fst (snd (ensureReady H (r, g)))) = Error \<and>
         errMsg (fst (snd (ensureReady H (r, g)))) = error_text e"
proof -
  from ensureReady_Throws [OF assms] obtain p g2 where
    s: "snd (ensureReady H (r, g)) = (r\<lparr>status := Error, errMsg := error_text e\<rparr>, g2)"
    and f: "pyRef r = None" "pyodidePromise g2 = Some p" "p < length (promises g2)"
      "promises g2 ! p = Rejected e" by blast
  have "ensureReady H' (r\<lparr>status := Error, errMsg := error_text e\<rparr>, g2) =
     (Throws e, (r\<lparr>status := Error, errMsg := error_text e\<rparr>, g2))"
    using ensureReady_memoized_failure
      [of "r\<lparr>status := Error, errMsg := error_text e\<rparr>" g2 p e H'] f
    by simp
  with s show ?thesis by simp
qed

text \<open>The load fails while offline; the next call, with the network back, fails alike.\<close>

theorem failed_load_is_memoized_witness:
  "fst (ensureReady offline_host (new_runner, fresh_page False)) = Throws network_error \<and>
   fst (ensureReady online_host (snd (ensureReady offline_host (new_runner, fresh_page False)))) =
     Throws network_error"
  using offline_load_fails
    failed_load_is_memoized [OF offline_load_fails, of online_host]
  by simp

text \<open>
  The load fails while offline. The next call is made when every host operation would
  succeed, yet it throws the old error, and there is still the one rejected promise and
  the one script element: no fresh load was started.
\<close>

theorem no_retry_counterexample:
  "fst (ensureReady online_host (snd (ensureReady offline_host (new_runner, fresh_page False)))) =
     Throws network_error \<and>
   promises (snd (snd (ensureReady online_host
     (snd (ensureReady offline_host (new_runner, fresh_page False)))))) =
     [Rejected network_error] \<and>
   scripts_appended (snd (snd (ensureReady online_host
     (snd (ensureReady offline_host (new_runner, fresh_page False)))))) = 1"
  by (simp add: eval_defs offline_host_def online_host_def)

section \<open>The clipboard\<close>

lemmas dom_defs = seq_def ret_def host_call_def createElement_def appendChild_def
  removeChild_def removeAllRanges_def addRange_def execCommand_copy_def Let_def

lemma textarea_copy_result: "fst (textarea_copy B t d) = Some True \<longleftrightarrow> textarea_ok B"
  by (simp add: textarea_copy_def textarea_ok_def dom_defs)

lemma textarea_copy_calls:
  "\<exists>cs. calls (snd (textarea_copy B t d)) = calls d @ TA_createElement # cs \<and>
        (\<forall>c\<in>set cs. strategy_of c = 2)"
  by (simp add: textarea_copy_def dom_defs)

lemma selection_copy_result: "fst (selection_copy B t d) = Some True \<longleftrightarrow> selection_ok B"
  by (simp add: selection_copy_def selection_ok_def dom_defs)

lemma selection_copy_calls:
  "\<exists>cs. calls (snd (selection_copy B t d)) = calls d @ SP_getSelection # cs \<and>
        (\<forall>c\<in>set cs. strategy_of c = 3)"
  by (simp add: selection_copy_def dom_defs)

lemma fallbacks_result:
  "fst (fallbacks B t d) = Returns
     (if textarea_ok B then \<lparr>ok = True, method = js ''execCommand''\<rparr>
      else if selection_ok B then \<lparr>ok = True, method = js ''selection''\<rparr>
      else \<lparr>ok = False, method = js ''blocked''\<rparr>)"
proof -
  obtain a d1 where t: "textarea_copy B t d = (a, d1)" by (cases "textarea_copy B t d")
  obtain b d2 where s: "selection_copy B t d1 = (b, d2)" by (cases "selection_copy B t d1")
  from t have ta: "a = Some True \<longleftrightarrow> textarea_ok B"
    using textarea_copy_result [of B t d] by simp
  from s have sa: "b = Some True \<longleftrightarrow> selection_ok B"
    using selection_copy_result [of B t d1] by simp
  show ?thesis
    using t s ta sa by (auto simp: fallbacks_def split: option.splits bool.splits)
qed

lemma fallbacks_calls:
  "\<exists>cs2 cs3. calls (snd (fallbacks B t d)) =
      calls d @ TA_createElement # cs2 @ (if textarea_ok B then [] else SP_getSelection # cs3) \<and>
      (\<forall>c\<in>set cs2. strategy_of c = 2) \<and> (\<forall>c\<in>set cs3. strategy_of c = 3)"
proof -
  obtain a d1 where t: "textarea_copy B t d = (a, d1)" by (cases "textarea_copy B t d")
  obtain b d2 where s: "selection_copy B t d1 = (b, d2)" by (cases "selection_copy B t d1")
  from t have ta: "a = Some True \<longleftrightarrow> textarea_ok B"
    using textarea_copy_result [of B t d] by simp
  from textarea_copy_calls [of B t d] t obtain cs2 where
    c2: "calls d1 = calls d @ TA_createElement # cs2" "\<forall>c\<in>set cs2. strategy_of c = 2"
    by auto
  from selection_copy_calls [of B t d1] s obtain cs3 where
    c3: "calls d2 = calls d1 @ SP_getSelection # cs3" "\<forall>c\<in>set cs3. strategy_of c = 3"
    by auto
  show ?thesis
  proof (cases "textarea_ok B")
    case True
    with t ta c2 show ?thesis
      by (intro exI [of _ cs2] exI [of _ "[]"]) (auto simp: fallbacks_def)
  next
    case False
    with ta have "a \<noteq> Some True" by simp
    with t s have "snd (fallbacks B t d) = d2"
      by (auto simp: fallbacks_def split: option.splits bool.splits)
    with False c2 c3 show ?thesis by auto
  qed
qed

lemma sorted_const: "(\<forall>c\<in>set cs. strategy_of c = k) \<Longrightarrow> sorted (map strategy_of cs)"
  by (induction cs) auto

lemma sorted_both:
  "(\<forall>c\<in>set cs2. strategy_of c = 2) \<Longrightarrow> (\<forall>c\<in>set cs3. strategy_of c = 3) \<Longrightarrow>
     sorted (map strategy_of cs2) \<and> sorted (map strategy_of cs3)"
  using sorted_const [of cs2 2] sorted_const [of cs3 3] by simp

lemma not_first_in_third:
  "(\<forall>c\<in>set cs. strategy_of c = 3) \<Longrightarrow> TA_createElement \<notin> set cs \<and> WriteText \<notin> set cs"
  by auto

lemma not_first_in_second:
  "(\<forall>c\<in>set cs. strategy_of c = 2) \<Longrightarrow> SP_getSelection \<notin> set cs \<and> WriteText \<notin> set cs"
  by auto

text \<open>
  When no host call throws, the textarea and the span are both gone from the body at
  the end, whichever strategy returns.
\<close>

lemma scaffolding_removed_without_exception:
  assumes "\<forall>c. \<not> throws B c" "\<forall>x\<in>set (body d). ident x < fresh d"
  shows "body (snd (safeCopyText B t d)) = body d"
proof -
  have f: "filter (\<lambda>x. ident x \<noteq> fresh d) (body d) = body d"
    using assms(2) by (auto simp: filter_id_conv)
  have g: "filter (\<lambda>x. ident x \<noteq> Suc (fresh d)) (body d) = body d"
    using assms(2) by (auto simp: filter_id_conv)
  show ?thesis using assms(1) f g
    by (simp add: safeCopyText_def fallbacks_def textarea_copy_def selection_copy_def dom_defs
        split: write_outcome.splits bool.splits)
qed

text \<open>
  C8. \<^verbatim>\<open>safeCopyText\<close> never throws. Its host calls come in the order clipboard API,
  textarea with \<^verbatim>\<open>execCommand\<close>, selection with \<^verbatim>\<open>execCommand\<close>: the textarea block is
  entered exactly when the clipboard API is not usable or \<^verbatim>\<open>writeText\<close> rejected, and
  the selection block exactly when moreover the textarea block did not end with a
  successful copy. It returns at the first strategy that succeeds, naming it
  (\<^verbatim>\<open>navigator.clipboard\<close>, \<^verbatim>\<open>execCommand\<close>, \<^verbatim>\<open>selection\<close>), and when all three fail or
  throw it returns \<^verbatim>\<open>ok: false\<close> with the method \<^verbatim>\<open>blocked\<close>, the source's name for
  no method. Only a \<^verbatim>\<open>writeText\<close> that never settles keeps it from returning.
\<close>

theorem copy_fallback_chain:
  "fst (safeCopyText B t d) =
     (if clipboard_usable B \<and> writeText B = WriteNeverSettles then Pending
      else Returns
        (if clipboard_usable B \<and> writeText B = WriteResolves then
           \<lparr>ok = True, method = js ''navigator.clipboard''\<rparr>
         else if textarea_ok B then \<lparr>ok = True, method = js ''execCommand''\<rparr>
         else if selection_ok B then \<lparr>ok = True, method = js ''selection''\<rparr>
         else \<lparr>ok = False, method = js ''blocked''\<rparr>)) \<and>
   sorted (map strategy_of (attempts B t d)) \<and>
   (WriteText \<in> set (attempts B t d) \<longleftrightarrow> clipboard_usable B) \<and>
   (TA_createElement \<in> set (attempts B t d) \<longleftrightarrow>
      \<not> clipboard_usable B \<or> writeText B = WriteRejects) \<and>
   (SP_getSelection \<in> set (attempts B t d) \<longleftrightarrow>
      (\<not> clipboard_usable B \<or> writeText B = WriteRejects) \<and> \<not> textarea_ok B)"
proof (cases "clipboard_usable B")
  case False
  from fallbacks_calls [of B t d] obtain cs2 cs3 where
    c: "calls (snd (fallbacks B t d)) =
      calls d @ TA_createElement # cs2 @ (if textarea_ok B then [] else SP_getSelection # cs3)"
      "\<forall>c\<in>set cs2. strategy_of c = 2" "\<forall>c\<in>set cs3. strategy_of c = 3" by blast
  have a: "attempts B t d =
      TA_createElement # cs2 @ (if textarea_ok B then [] else SP_getSelection # cs3)"
    using False c(1) by (simp add: attempts_def safeCopyText_def)
  have r: "fst (safeCopyText B t d) = fst (fallbacks B t d)"
    using False by (simp add: safeCopyText_def)
  show ?thesis
    unfolding a r fallbacks_result
    using False c(2,3) not_first_in_third [OF c(3)] not_first_in_second [OF c(2)]
      sorted_both [OF c(2,3)]
    by (auto simp: sorted_append)
next
  case True
  show ?thesis
  proof (cases "writeText B")
    case WriteResolves
    with True show ?thesis by (simp add: safeCopyText_def attempts_def)
  next
    case WriteNeverSettles
    with True show ?thesis by (simp add: safeCopyText_def attempts_def)
  next
    case WriteRejects
    let ?d0 = "d\<lparr>calls := calls d @ [WriteText]\<rparr>"
    from fallbacks_calls [of B t ?d0] obtain cs2 cs3 where
      c: "calls (snd (fallbacks B t ?d0)) =
        calls ?d0 @ TA_createElement # cs2 @ (if textarea_ok B then [] else SP_getSelection # cs3)"
        "\<forall>c\<in>set cs2. strategy_of c = 2" "\<forall>c\<in>set cs3. strategy_of c = 3" by blast
    have a: "attempts B t d =
        WriteText # TA_createElement # cs2 @ (if textarea_ok B then [] else SP_getSelection # cs3)"
      using True WriteRejects c(1) by (simp add: attempts_def safeCopyText_def)
    have r: "fst (safeCopyText B t d) = fst (fallbacks B t ?d0)"
      using True WriteRejects by (simp add: safeCopyText_def)
    show ?thesis
      unfolding a r fallbacks_result
      using True WriteRejects c(2,3) not_first_in_third [OF c(3)] not_first_in_second [OF c(2)]
        sorted_both [OF c(2,3)]
      by (auto simp: sorted_append)
  qed
qed

text \<open>
  \<^verbatim>\<open>writeText\<close> rejects and appending the textarea throws: the selection strategy is
  reached and is the one named in the outcome.
\<close>

theorem copy_fallback_chain_witness:
  "writeText restricted_browser = WriteRejects \<and> \<not> textarea_ok restricted_browser \<and>
   selection_ok restricted_browser \<and>
   fst (safeCopyText restricted_browser (js ''x'') empty_page) =
     Returns \<lparr>ok = True, method = js ''selection''\<rparr> \<and>
   WriteText \<in> set (attempts restricted_browser (js ''x'') empty_page) \<and>
   TA_createElement \<in> set (attempts restricted_browser (js ''x'') empty_page) \<and>
   SP_getSelection \<in> set (attempts restricted_browser (js ''x'') empty_page)"
  using copy_fallback_chain [of restricted_browser "js ''x''" empty_page]
  by (simp add: restricted_browser_def textarea_ok_def selection_ok_def clipboard_usable_def)

text \<open>
  C9. With no clipboard API and an \<^verbatim>\<open>execCommand\<close> that throws in the textarea block,
  \<^verbatim>\<open>removeChild(ta)\<close> is skipped: when \<^verbatim>\<open>safeCopyText\<close> returns, reporting
  \<^verbatim>\<open>blocked\<close>, the textarea with the copied text is still a child of the body.
\<close>

theorem textarea_left_behind:
  "fst (safeCopyText leaky_browser (js ''hi'') empty_page) =
     Returns \<lparr>ok = False, method = js ''blocked''\<rparr> \<and>
   map tagName (body (snd (safeCopyText leaky_browser (js ''hi'') empty_page))) = [Textarea] \<and>
   map content (body (snd (safeCopyText leaky_browser (js ''hi'') empty_page))) = [js ''hi'']"
  by (simp add: safeCopyText_def fallbacks_def clipboard_usable_def leaky_browser_def
      empty_page_def textarea_copy_def selection_copy_def dom_defs)

end
